theory Spec2Isabelle
  imports Complex_Main "HOL-Library.Multiset"
begin

section \<open>Python text primitives\<close>

text \<open>
  A Python \<open>str\<close> is modelled as the list of its code points, one \<open>char\<close> each, so the
  model covers the strings whose code points are below 256. On that range the whitespace
  class of \<open>str.strip\<close> and \<open>str.split\<close> and the case mapping of \<open>str.lower\<close> are
  the finite tables below.
\<close>

definition is_space :: "char \<Rightarrow> bool" where
  "is_space c = (c \<in> set [CHR 0x09, CHR 0x0A, CHR 0x0B, CHR 0x0C, CHR 0x0D,
      CHR 0x1C, CHR 0x1D, CHR 0x1E, CHR 0x1F, CHR 0x20, CHR 0x85, CHR 0xA0])"

definition strip :: "string \<Rightarrow> string" where
  "strip s = rev (dropWhile is_space (rev (dropWhile is_space s)))"

text \<open>\<open>str.split()\<close> without arguments: the maximal runs of non-whitespace, in order.
  The first argument is the run read so far.\<close>

fun split_from :: "string \<Rightarrow> string \<Rightarrow> string list" where
  "split_from w [] = (if w = [] then [] else [w])"
| "split_from w (c # cs) =
     (if is_space c then (if w = [] then split_from [] cs else w # split_from [] cs)
      else split_from (w @ [c]) cs)"

definition split :: "string \<Rightarrow> string list" where
  "split s = split_from [] s"

definition is_upper :: "char \<Rightarrow> bool" where
  "is_upper c = (let n = (of_char c :: nat) in
     (65 \<le> n \<and> n \<le> 90) \<or> (192 \<le> n \<and> n \<le> 222 \<and> n \<noteq> 215))"

text \<open>The lower-case letter of an upper-case one is 32 code points further; bit 5 is
  clear in every upper-case code point, so adding 32 sets it.\<close>

definition lower_char :: "char \<Rightarrow> char" where
  "lower_char c =
     (if is_upper c
      then (case c of Char b0 b1 b2 b3 b4 b5 b6 b7 \<Rightarrow> Char b0 b1 b2 b3 b4 True b6 b7)
      else c)"

definition lower :: "string \<Rightarrow> string" where
  "lower s = map lower_char s"

fun startswith :: "string \<Rightarrow> string \<Rightarrow> bool" where
  "startswith s [] = True"
| "startswith [] (p # ps) = False"
| "startswith (c # cs) (p # ps) = (c = p \<and> startswith cs ps)"

text \<open>\<open>t in s\<close> on strings: \<open>t\<close> occurs in \<open>s\<close> as a contiguous block.\<close>

fun contains :: "string \<Rightarrow> string \<Rightarrow> bool" where
  "contains [] t = (t = [])"
| "contains (c # cs) t = (startswith (c # cs) t \<or> contains cs t)"

text \<open>\<open>" ".join(xs)\<close>\<close>

fun join_space :: "string list \<Rightarrow> string" where
  "join_space [] = []"
| "join_space [x] = x"
| "join_space (x # y # ys) = x @ '' '' @ join_space (y # ys)"

section \<open>Parsing integers\<close>

datatype error = ValueError | ReError | RuntimeError

definition is_digit :: "char \<Rightarrow> bool" where
  "is_digit c = (c \<in> set ''0123456789'')"

definition digit_val :: "char \<Rightarrow> nat" where
  "digit_val c = of_char c - 48"

text \<open>\<open>int(s)\<close> skips a narrower whitespace class than \<open>str.strip\<close> does: the code points
  0x1C to 0x1F are not skipped.\<close>

definition int_space :: "char \<Rightarrow> bool" where
  "int_space c = (c \<in> set [CHR 0x09, CHR 0x0A, CHR 0x0B, CHR 0x0C, CHR 0x0D,
      CHR 0x20, CHR 0x85, CHR 0xA0])"

text \<open>Decimal digits with single underscores between digits. The flag says that the
  previous character was a digit.\<close>

fun parse_digits :: "bool \<Rightarrow> nat \<Rightarrow> string \<Rightarrow> nat option" where
  "parse_digits prev acc [] = (if prev then Some acc else None)"
| "parse_digits prev acc (c # cs) =
     (if is_digit c then parse_digits True (10 * acc + digit_val c) cs
      else if c = CHR ''_'' \<and> prev then parse_digits False acc cs
      else None)"

text \<open>CPython refuses a decimal string of more than \<open>sys.get_int_max_str_digits()\<close>
  digits with a ValueError; 4300 is the default.\<close>

definition int_max_str_digits :: nat where
  "int_max_str_digits = 4300"

definition py_int :: "string \<Rightarrow> error + int" where
  "py_int s =
     (let t = rev (dropWhile int_space (rev (dropWhile int_space s)));
          neg = (t \<noteq> [] \<and> hd t = CHR ''-'');
          body = (if t \<noteq> [] \<and> (hd t = CHR ''-'' \<or> hd t = CHR ''+'') then tl t else t)
      in case parse_digits False 0 body of
           None \<Rightarrow> Inl ValueError
         | Some n \<Rightarrow>
             if int_max_str_digits < length (filter is_digit body) then Inl ValueError
             else Inr (if neg then - int n else int n))"

text \<open>The body of the \<open>try\<close> block of \<open>_to_int\<close>; the argument is \<open>None\<close> or a string.\<close>

definition to_int_try :: "string option \<Rightarrow> error + int option" where
  "to_int_try x =
     (case x of
        None \<Rightarrow> Inr None
      | Some s \<Rightarrow>
          (let t = strip s in
           if t = [] then Inr None
           else (case py_int t of Inl e \<Rightarrow> Inl e | Inr n \<Rightarrow> Inr (Some n))))"

text \<open>\<open>_to_int\<close>: the \<open>except Exception\<close> clause turns every raise of the body into
  \<open>None\<close>.\<close>

definition to_int :: "string option \<Rightarrow> error + int option" where
  "to_int x = (case to_int_try x of Inl e \<Rightarrow> Inr None | Inr v \<Rightarrow> Inr v)"

section \<open>The table\<close>

text \<open>
  A row of the data file. A text cell is \<open>None\<close> when it is missing (NaN in the frame). The
  numeric cells hold what \<open>pd.to_numeric(errors="coerce")\<close> leaves there: a number, or
  \<open>None\<close> for NaN. Numbers are exact rationals: the rounding of 64-bit floats is not part
  of the model.
\<close>

record listing =
  brand :: "string option"
  model :: "string option"
  body_type :: "string option"
  fuel_type :: "string option"
  drive_type :: "string option"
  transmission :: "string option"
  year :: "rat option"
  horsepower :: "rat option"
  price_usd :: "rat option"

record car = listing +
  car_id :: int

text \<open>\<open>astype(str)\<close> on a text cell: a missing cell becomes the text \<open>nan\<close>.\<close>

definition astype_str :: "string option \<Rightarrow> string" where
  "astype_str c = (case c of None \<Rightarrow> ''nan'' | Some s \<Rightarrow> s)"

definition search_cols :: "car \<Rightarrow> string option list" where
  "search_cols r = [brand r, model r, body_type r, fuel_type r, drive_type r, transmission r]"

definition haystack :: "car \<Rightarrow> string" where
  "haystack r = lower (join_space (map astype_str (search_cols r)))"

section \<open>Text search\<close>

text \<open>
  \<open>Series.str.contains(term, na=False)\<close> is called with its default \<open>regex=True\<close>: the
  term is compiled as a regular expression and searched for in each haystack. The model
  fixes what the expression means on two kinds of terms: a term that starts with one of
  the repeat characters \<open>*\<close>, \<open>+\<close>, \<open>?\<close> does not compile (nothing to repeat), and a term
  made of ordinary characters and dots is a sequence of literals and wildcards, the dot
  standing for any character but the newline. Every other term is handed to the
  parameter \<open>eng\<close>, the regular-expression compiler on the remaining syntax, of which
  nothing is assumed.
\<close>

definition special_chars :: "char list" where
  "special_chars = [CHR ''.'', CHR ''^'', CHR ''$'', CHR ''*'', CHR ''+'', CHR ''?'',
     CHR ''{'', CHR ''}'', CHR ''['', CHR '']'', CHR 0x5C, CHR ''|'', CHR ''('', CHR '')'']"

definition repeat_chars :: "char list" where
  "repeat_chars = [CHR ''*'', CHR ''+'', CHR ''?'']"

datatype atom = Lit char | AnyChar

definition to_atom :: "char \<Rightarrow> atom" where
  "to_atom c = (if c = CHR ''.'' then AnyChar else Lit c)"

fun atom_matches :: "atom \<Rightarrow> char \<Rightarrow> bool" where
  "atom_matches (Lit a) c = (c = a)"
| "atom_matches AnyChar c = (c \<noteq> CHR 0x0A)"

fun match_here :: "atom list \<Rightarrow> string \<Rightarrow> bool" where
  "match_here [] s = True"
| "match_here (a # as) [] = False"
| "match_here (a # as) (c # cs) = (atom_matches a c \<and> match_here as cs)"

fun re_search :: "atom list \<Rightarrow> string \<Rightarrow> bool" where
  "re_search as [] = match_here as []"
| "re_search as (c # cs) = (match_here as (c # cs) \<or> re_search as cs)"

type_synonym matcher = "string \<Rightarrow> bool"
type_synonym engine = "string \<Rightarrow> error + matcher"

definition re_compile :: "engine \<Rightarrow> string \<Rightarrow> error + matcher" where
  "re_compile eng pat =
     (if pat \<noteq> [] \<and> hd pat \<in> set repeat_chars then Inl ReError
      else if \<forall>c \<in> set pat. c = CHR ''.'' \<or> c \<notin> set special_chars
           then Inr (re_search (map to_atom pat))
      else eng pat)"

text \<open>The loop \<open>for term in terms: mask &= haystack.str.contains(term, na=False)\<close>.\<close>

fun mask_terms :: "engine \<Rightarrow> string list \<Rightarrow> string list \<Rightarrow> bool list \<Rightarrow> error + bool list" where
  "mask_terms eng [] hs msk = Inr msk"
| "mask_terms eng (t # ts) hs msk =
     (case re_compile eng t of
        Inl e \<Rightarrow> Inl e
      | Inr m \<Rightarrow> mask_terms eng ts hs (map2 (\<and>) msk (map m hs)))"

text \<open>\<open>filtered[mask]\<close>\<close>

definition select :: "'a list \<Rightarrow> bool list \<Rightarrow> 'a list" where
  "select xs msk = map fst (filter snd (zip xs msk))"

text \<open>The block of \<open>apply_filters\<close> under the comment of the search.\<close>

definition text_search :: "engine \<Rightarrow> string option \<Rightarrow> car list \<Rightarrow> error + car list" where
  "text_search eng q filtered =
     (case q of
        None \<Rightarrow> Inr filtered
      | Some s \<Rightarrow>
          if s \<noteq> [] \<and> strip s \<noteq> [] then
            (case mask_terms eng (split (lower (strip s))) (map haystack filtered)
                    (replicate (length filtered) True) of
               Inl e \<Rightarrow> Inl e
             | Inr msk \<Rightarrow> Inr (select filtered msk))
          else Inr filtered)"

section \<open>Filters\<close>

record params =
  arg_q :: "string option"
  arg_brand :: "string option"
  arg_model :: "string option"
  arg_body_type :: "string option"
  arg_year_min :: "string option"
  arg_year_max :: "string option"
  arg_hp_min :: "string option"
  arg_hp_max :: "string option"
  arg_price_min :: "string option"
  arg_price_max :: "string option"
  arg_fuel_type :: "string option"
  arg_drive_type :: "string option"
  arg_transmission :: "string option"

text \<open>\<open>if v: filtered = filtered[filtered[col] == v]\<close>; a missing cell equals nothing.\<close>

definition eq_filter :: "(car \<Rightarrow> string option) \<Rightarrow> string option \<Rightarrow> car list \<Rightarrow> car list" where
  "eq_filter col v xs =
     (case v of
        None \<Rightarrow> xs
      | Some s \<Rightarrow> if s = [] then xs else filter (\<lambda>r. col r = Some s) xs)"

text \<open>Comparisons of the frame: false as soon as one side is NaN.\<close>

definition ge :: "rat option \<Rightarrow> rat option \<Rightarrow> bool" where
  "ge a b = (case a of None \<Rightarrow> False | Some x \<Rightarrow> (case b of None \<Rightarrow> False | Some y \<Rightarrow> y \<le> x))"

definition le :: "rat option \<Rightarrow> rat option \<Rightarrow> bool" where
  "le a b = (case a of None \<Rightarrow> False | Some x \<Rightarrow> (case b of None \<Rightarrow> False | Some y \<Rightarrow> x \<le> y))"

definition ge_filter :: "(car \<Rightarrow> rat option) \<Rightarrow> int option \<Rightarrow> car list \<Rightarrow> car list" where
  "ge_filter col b xs =
     (case b of None \<Rightarrow> xs | Some n \<Rightarrow> filter (\<lambda>r. ge (col r) (Some (of_int n))) xs)"

definition le_filter :: "(car \<Rightarrow> rat option) \<Rightarrow> int option \<Rightarrow> car list \<Rightarrow> car list" where
  "le_filter col b xs =
     (case b of None \<Rightarrow> xs | Some n \<Rightarrow> filter (\<lambda>r. le (col r) (Some (of_int n))) xs)"

definition and_then :: "error + 'a \<Rightarrow> ('a \<Rightarrow> error + 'b) \<Rightarrow> error + 'b" where
  "and_then m f = (case m of Inl e \<Rightarrow> Inl e | Inr v \<Rightarrow> f v)"

definition apply_filters :: "engine \<Rightarrow> car list \<Rightarrow> params \<Rightarrow> error + car list" where
  "apply_filters eng data p =
     and_then (text_search eng (arg_q p) data) (\<lambda>f0.
       let f1 = eq_filter brand (arg_brand p) f0;
           f2 = eq_filter model (arg_model p) f1;
           f3 = eq_filter body_type (arg_body_type p) f2;
           f4 = eq_filter fuel_type (arg_fuel_type p) f3;
           f5 = eq_filter drive_type (arg_drive_type p) f4;
           f6 = eq_filter transmission (arg_transmission p) f5
       in
       and_then (to_int (arg_year_min p)) (\<lambda>y_min.
       and_then (to_int (arg_year_max p)) (\<lambda>y_max.
       and_then (to_int (arg_hp_min p)) (\<lambda>hp_min_i.
       and_then (to_int (arg_hp_max p)) (\<lambda>hp_max_i.
       and_then (to_int (arg_price_min p)) (\<lambda>p_min.
       and_then (to_int (arg_price_max p)) (\<lambda>p_max.
         Inr (le_filter price_usd p_max (ge_filter price_usd p_min
               (le_filter horsepower hp_max_i (ge_filter horsepower hp_min_i
                 (le_filter year y_max (ge_filter year y_min f6)))))))))))))"

text \<open>The records of a result; a raise returns none.\<close>

definition kept :: "error + car list \<Rightarrow> car set" where
  "kept res = (case res of Inl e \<Rightarrow> {} | Inr xs \<Rightarrow> set xs)"

text \<open>
  Direct evaluation of the criteria on one record. The text constraint is taken over a
  haystack function, so that the same predicate can be read with the haystack of the
  code (\<open>satisfies\<close>) and with the plain concatenation of the six cells
  (\<open>claimed_satisfies\<close>).
\<close>

definition terms :: "string option \<Rightarrow> string list" where
  "terms q = (case q of None \<Rightarrow> [] | Some s \<Rightarrow> split (lower s))"

definition plain :: "string \<Rightarrow> bool" where
  "plain t = (\<forall>c \<in> set t. c \<notin> set special_chars)"

definition text_ok :: "(car \<Rightarrow> string) \<Rightarrow> string option \<Rightarrow> car \<Rightarrow> bool" where
  "text_ok hay q r = (\<forall>t \<in> set (terms q). contains (hay r) t)"

definition cat_ok :: "string option \<Rightarrow> string option \<Rightarrow> bool" where
  "cat_ok v c = (case v of None \<Rightarrow> True | Some s \<Rightarrow> s = [] \<or> c = Some s)"

definition bound :: "string option \<Rightarrow> int option" where
  "bound x = (case to_int x of Inl e \<Rightarrow> None | Inr v \<Rightarrow> v)"

definition min_ok :: "int option \<Rightarrow> rat option \<Rightarrow> bool" where
  "min_ok b c =
     (case b of None \<Rightarrow> True
      | Some n \<Rightarrow> (case c of None \<Rightarrow> False | Some v \<Rightarrow> of_int n \<le> v))"

definition max_ok :: "int option \<Rightarrow> rat option \<Rightarrow> bool" where
  "max_ok b c =
     (case b of None \<Rightarrow> True
      | Some n \<Rightarrow> (case c of None \<Rightarrow> False | Some v \<Rightarrow> v \<le> of_int n))"

definition fields_ok :: "params \<Rightarrow> car \<Rightarrow> bool" where
  "fields_ok p r =
     (cat_ok (arg_brand p) (brand r) \<and> cat_ok (arg_model p) (model r)
      \<and> cat_ok (arg_body_type p) (body_type r) \<and> cat_ok (arg_fuel_type p) (fuel_type r)
      \<and> cat_ok (arg_drive_type p) (drive_type r)
      \<and> cat_ok (arg_transmission p) (transmission r)
      \<and> min_ok (bound (arg_year_min p)) (year r) \<and> max_ok (bound (arg_year_max p)) (year r)
      \<and> min_ok (bound (arg_hp_min p)) (horsepower r)
      \<and> max_ok (bound (arg_hp_max p)) (horsepower r)
      \<and> min_ok (bound (arg_price_min p)) (price_usd r)
      \<and> max_ok (bound (arg_price_max p)) (price_usd r))"

definition satisfies_with :: "(car \<Rightarrow> string) \<Rightarrow> params \<Rightarrow> car \<Rightarrow> bool" where
  "satisfies_with hay p r = (text_ok hay (arg_q p) r \<and> fields_ok p r)"

definition satisfies :: "params \<Rightarrow> car \<Rightarrow> bool" where
  "satisfies p r = satisfies_with haystack p r"

definition claimed_haystack :: "car \<Rightarrow> string" where
  "claimed_haystack r = lower (concat (map astype_str (search_cols r)))"

definition claimed_satisfies :: "params \<Rightarrow> car \<Rightarrow> bool" where
  "claimed_satisfies p r = satisfies_with claimed_haystack p r"

definition no_params :: params where
  "no_params = \<lparr>arg_q = None, arg_brand = None, arg_model = None, arg_body_type = None,
     arg_year_min = None, arg_year_max = None, arg_hp_min = None, arg_hp_max = None,
     arg_price_min = None, arg_price_max = None, arg_fuel_type = None,
     arg_drive_type = None, arg_transmission = None\<rparr>"

section \<open>Recommendations\<close>

text \<open>\<open>==\<close> between a cell of the frame and a cell of the reference row.\<close>

definition eq_cell :: "string option \<Rightarrow> string option \<Rightarrow> bool" where
  "eq_cell a b = (case a of None \<Rightarrow> False | Some x \<Rightarrow> b = Some x)"

definition num_add :: "rat option \<Rightarrow> rat \<Rightarrow> rat option" where
  "num_add a d = map_option (\<lambda>x. x + d) a"

definition num_mul :: "rat option \<Rightarrow> rat \<Rightarrow> rat option" where
  "num_mul a d = map_option (\<lambda>x. x * d) a"

definition between :: "rat option \<Rightarrow> rat option \<Rightarrow> rat option \<Rightarrow> bool" where
  "between v lo hi = (ge v lo \<and> le v hi)"

definition similar :: "car list \<Rightarrow> int \<Rightarrow> car \<Rightarrow> car list" where
  "similar df cid c =
     filter (\<lambda>r. eq_cell (brand r) (brand c)
                \<and> eq_cell (body_type r) (body_type c)
                \<and> between (year r) (num_add (year c) (- 1)) (num_add (year c) 1)
                \<and> between (horsepower r) (num_mul (horsepower c) (4 / 5))
                     (num_mul (horsepower c) (6 / 5))
                \<and> car_id r \<noteq> cid) df"

definition price_range_cars :: "car list \<Rightarrow> int \<Rightarrow> car \<Rightarrow> car list" where
  "price_range_cars df cid c =
     filter (\<lambda>r. between (price_usd r) (num_mul (price_usd c) (9 / 10))
                     (num_mul (price_usd c) (11 / 10))
                \<and> car_id r \<noteq> cid) df"

datatype page = NotFound | Rendered car "car list" "car list"

definition recommend :: "car list \<Rightarrow> int \<Rightarrow> page" where
  "recommend df cid =
     (case filter (\<lambda>r. car_id r = cid) df of
        [] \<Rightarrow> NotFound
      | c # rest \<Rightarrow> Rendered c (similar df cid c) (price_range_cars df cid c))"

section \<open>Favourites\<close>

text \<open>
  The list of favourites lives in the session, under the key \<open>favorites\<close>. The session is a
  signed cookie, and the application is created by \<open>Flask(__name__)\<close> alone: no secret key
  is set.
\<close>

definition secret_key :: "string option" where
  "secret_key = None"

text \<open>
  What a request finds as its session, given what the cookie stores: without a secret key
  the session is the null session, which holds nothing whatever the cookie says.
\<close>

definition open_session :: "string option \<Rightarrow> int list option \<Rightarrow> int list option" where
  "open_session key stored = (case key of None \<Rightarrow> None | Some k \<Rightarrow> stored)"

text \<open>\<open>session.get("favorites", [])\<close>\<close>

definition favorites_of :: "int list option \<Rightarrow> int list" where
  "favorites_of session = (case session of None \<Rightarrow> [] | Some l \<Rightarrow> l)"

text \<open>\<open>session["favorites"] = favorites\<close>: the null session refuses every write with a
  RuntimeError.\<close>

definition session_set :: "string option \<Rightarrow> int list \<Rightarrow> error + int list option" where
  "session_set key favorites =
     (case key of None \<Rightarrow> Inl RuntimeError | Some k \<Rightarrow> Inr (Some favorites))"

text \<open>The \<open>if\<close> of \<open>toggle_favorite\<close> on the list; \<open>remove\<close> takes the first occurrence
  out.\<close>

definition toggle_list :: "int list \<Rightarrow> int \<Rightarrow> int list" where
  "toggle_list favorites cid =
     (if cid \<in> set favorites then remove1 cid favorites else favorites @ [cid])"

text \<open>The request: what the cookie stores before, and the error or what it stores after.\<close>

definition toggle_favorite :: "int list option \<Rightarrow> int \<Rightarrow> error + int list option" where
  "toggle_favorite stored cid =
     (let favorites = favorites_of (open_session secret_key stored)
      in session_set secret_key (toggle_list favorites cid))"

section \<open>Loading the data\<close>

text \<open>
  The data file as the frame reads it: which of the columns \<open>id\<close>, \<open>index\<close> and
  \<open>level_0\<close> it has, and its rows. \<open>id_cell\<close> and \<open>index_cell\<close> are what
  \<open>pd.to_numeric(errors="coerce")\<close> makes of the row's cell in these columns: a number,
  or \<open>None\<close> for an empty or non-numeric cell. They are read only when the column is
  there.
\<close>

record raw_row =
  id_cell :: "rat option"
  index_cell :: "rat option"
  cells :: listing

record source =
  has_id :: bool
  has_index :: bool
  has_level_0 :: bool
  rows :: "raw_row list"

text \<open>\<open>astype(int)\<close> cuts the fraction off.\<close>

definition astype_int :: "rat \<Rightarrow> int" where
  "astype_int x = (if 0 \<le> x then \<lfloor>x\<rfloor> else \<lceil>x\<rceil>)"

text \<open>\<open>fillna(0).astype(int)\<close>\<close>

definition to_id :: "rat option \<Rightarrow> int" where
  "to_id c = (case c of None \<Rightarrow> 0 | Some v \<Rightarrow> astype_int v)"

definition mk_car :: "int \<Rightarrow> listing \<Rightarrow> car" where
  "mk_car i l = \<lparr>brand = brand l, model = model l, body_type = body_type l,
     fuel_type = fuel_type l, drive_type = drive_type l, transmission = transmission l,
     year = year l, horsepower = horsepower l, price_usd = price_usd l, car_id = i\<rparr>"

text \<open>
  Without an \<open>id\<close> column, \<open>reset_index\<close> puts the row numbers into a new column: named
  \<open>index\<close>, which is then renamed to \<open>id\<close>; or named \<open>level_0\<close> when the file has a
  column \<open>index\<close> already, and then it is the file's own \<open>index\<close> column that is renamed
  to \<open>id\<close>. \<open>reset_index\<close> raises when \<open>level_0\<close> is taken as well.
\<close>

definition load :: "source \<Rightarrow> error + car list" where
  "load src =
     (if has_id src then Inr (map (\<lambda>r. mk_car (to_id (id_cell r)) (cells r)) (rows src))
      else if has_index src then
        (if has_level_0 src then Inl ValueError
         else Inr (map (\<lambda>r. mk_car (to_id (index_cell r)) (cells r)) (rows src)))
      else Inr (map (\<lambda>(i, r). mk_car (to_id (Some (of_nat i))) (cells r))
                  (enumerate 0 (rows src))))"

section \<open>Search suggestions\<close>

record request =
  req_q :: "string option"
  req_brand :: "string option"
  req_limit :: "string option"

record hit =
  hit_id :: int
  hit_brand :: "string option"
  hit_model :: "string option"
  hit_year :: "rat option"
  hit_price_usd :: "rat option"
  hit_body_type :: "string option"

definition to_hit :: "car \<Rightarrow> hit" where
  "to_hit r = \<lparr>hit_id = car_id r, hit_brand = brand r, hit_model = model r,
     hit_year = year r, hit_price_usd = price_usd r, hit_body_type = body_type r\<rparr>"

text \<open>
  \<open>sort_values(by="price_usd", ascending=True)\<close>: the rows with a price are ordered by
  the sorting routine, the rows without one follow in the order they had. The routine is
  the parameter \<open>argsort\<close>: the default sort is not stable, so the order of rows with the
  same price is left to it. \<open>sorts_by_price\<close> says what every such routine does.
\<close>

definition sort_values :: "(car list \<Rightarrow> car list) \<Rightarrow> car list \<Rightarrow> car list" where
  "sort_values argsort xs =
     argsort (filter (\<lambda>r. price_usd r \<noteq> None) xs) @ filter (\<lambda>r. price_usd r = None) xs"

definition sorts_by_price :: "(car list \<Rightarrow> car list) \<Rightarrow> bool" where
  "sorts_by_price f =
     (\<forall>xs. (\<forall>r \<in> set xs. price_usd r \<noteq> None) \<longrightarrow>
        mset (f xs) = mset xs \<and> sorted_wrt (\<lambda>a b. le (price_usd a) (price_usd b)) (f xs))"

definition price_key :: "car \<Rightarrow> rat" where
  "price_key r = (case price_usd r of None \<Rightarrow> 0 | Some v \<Rightarrow> v)"

text \<open>One such routine: insertion sort on the price.\<close>

definition insertion_argsort :: "car list \<Rightarrow> car list" where
  "insertion_argsort xs = sort_key price_key xs"

definition or_empty :: "string option \<Rightarrow> string" where
  "or_empty x = (case x of None \<Rightarrow> [] | Some s \<Rightarrow> s)"

text \<open>The \<open>try\<close> block around \<open>limit\<close>; an absent parameter is the integer 8.\<close>

definition parse_limit :: "string option \<Rightarrow> int" where
  "parse_limit l =
     (case l of
        None \<Rightarrow> max 1 (min 20 8)
      | Some s \<Rightarrow> (case py_int s of Inl e \<Rightarrow> 8 | Inr n \<Rightarrow> max 1 (min 20 n)))"

definition api_search ::
  "engine \<Rightarrow> (car list \<Rightarrow> car list) \<Rightarrow> car list \<Rightarrow> request \<Rightarrow> error + hit list" where
  "api_search eng argsort df req =
     (let q = strip (or_empty (req_q req));
          brand = strip (or_empty (req_brand req));
          limit = parse_limit (req_limit req)
      in if length q < 2 \<and> brand = [] then Inr []
         else and_then
                (apply_filters eng df (no_params\<lparr>arg_q := Some q, arg_brand := Some brand\<rparr>))
                (\<lambda>result. Inr (map to_hit (take (nat limit) (sort_values argsort result)))))"

section \<open>Example data\<close>

definition ex_car :: "int \<Rightarrow> string \<Rightarrow> string \<Rightarrow> rat option \<Rightarrow> rat option \<Rightarrow> rat option \<Rightarrow> car" where
  "ex_car i b m y h p = \<lparr>brand = Some b, model = Some m, body_type = Some ''Sedan'',
     fuel_type = None, drive_type = None, transmission = None,
     year = y, horsepower = h, price_usd = p, car_id = i\<rparr>"

text \<open>A compiler for the remaining syntax that refuses every pattern.\<close>

definition ex_engine :: engine where
  "ex_engine pat = Inl ReError"

definition ex_table :: "car list" where
  "ex_table = [ex_car 1 ''Toyota'' ''Camry'' (Some 2020) (Some 150) (Some 20000),
     ex_car 2 ''Toyota'' ''Corolla'' (Some 2021) (Some 160) (Some 21000),
     ex_car 3 ''Honda'' ''Civic'' (Some 2020) (Some 140) (Some 19000),
     ex_car 4 ''Honda'' ''Accord'' None None None]"

definition ex_bounds :: params where
  "ex_bounds = no_params\<lparr>arg_year_min := Some ''2000'', arg_hp_max := Some '' 500'',
     arg_price_min := Some ''1_000''\<rparr>"

definition ex_query :: params where
  "ex_query = no_params\<lparr>arg_q := Some '' TOY  sedan'', arg_year_min := Some ''2021''\<rparr>"

definition ex_listing :: "string \<Rightarrow> listing" where
  "ex_listing m = \<lparr>brand = Some ''Kia'', model = Some m, body_type = None, fuel_type = None,
     drive_type = None, transmission = None, year = None, horsepower = None,
     price_usd = None\<rparr>"

definition ex_rows :: "rat option \<Rightarrow> rat option \<Rightarrow> raw_row list" where
  "ex_rows a b = [\<lparr>id_cell = a, index_cell = b, cells = ex_listing ''Rio''\<rparr>,
     \<lparr>id_cell = a, index_cell = b, cells = ex_listing ''Ceed''\<rparr>]"

definition ex_priced :: "car list" where
  "ex_priced = [ex_car 4 ''Honda'' ''Accord'' None None None,
     ex_car 1 ''Toyota'' ''Camry'' (Some 2020) (Some 150) (Some 20000),
     ex_car 5 ''Honda'' ''Jazz'' (Some 2019) (Some 100) None,
     ex_car 3 ''Honda'' ''Civic'' (Some 2020) (Some 140) (Some 19000)]"

definition ex_request :: request where
  "ex_request = \<lparr>req_q = Some '' sedan '', req_brand = None, req_limit = Some ''abc''\<rparr>"

section \<open>Parsing of the numeric parameters\<close>

text \<open>
  Claim C4. \<open>_to_int\<close> never raises: it returns a value on every argument. A string that
  is empty after stripping gives \<open>None\<close>, a string that \<open>int\<close> refuses gives \<open>None\<close>, and a
  string that \<open>int\<close> accepts gives its integer.
\<close>

theorem to_int_never_raises:
  "(\<exists>v. to_int x = Inr v)
   \<and> (strip s1 = [] \<longrightarrow> to_int (Some s1) = Inr None)
   \<and> (py_int (strip s2) = Inl e \<longrightarrow> to_int (Some s2) = Inr None)
   \<and> (strip s3 \<noteq> [] \<and> py_int (strip s3) = Inr n \<longrightarrow> to_int (Some s3) = Inr (Some n))"
  by (simp add: to_int_def to_int_try_def Let_def split: sum.splits)

theorem to_int_never_raises_witness:
  "to_int (Some [CHR '' '', CHR 0x09]) = Inr None \<and> to_int (Some ''12a'') = Inr None
   \<and> to_int (Some '' -1_000 '') = Inr (Some (- 1000))"
  using to_int_never_raises [of "Some ''12a''" "[CHR '' '', CHR 0x09]" "''12a''" ValueError
      "'' -1_000 ''" "- 1000"]
  by (simp add: strip_def is_space_def py_int_def int_space_def is_digit_def digit_val_def
      Let_def int_max_str_digits_def)

section \<open>Recommendations: what the similar cars share with the reference\<close>

lemma find_filter: "find P xs = (case filter P xs of [] \<Rightarrow> None | x # _ \<Rightarrow> Some x)"
  by (induction xs) auto

lemma recommend_found:
  assumes "cid \<in> car_id ` set df"
  shows "\<exists>c. find (\<lambda>r. car_id r = cid) df = Some c
            \<and> recommend df cid = Rendered c (similar df cid c) (price_range_cars df cid c)"
proof -
  from assms have "filter (\<lambda>r. car_id r = cid) df \<noteq> []"
    by (auto simp: filter_empty_conv)
  then obtain c rest where "filter (\<lambda>r. car_id r = cid) df = c # rest"
    by (cases "filter (\<lambda>r. car_id r = cid) df") auto
  then show ?thesis by (simp add: recommend_def find_filter)
qed

lemma similar_member:
  "r \<in> set (similar df cid c) \<Longrightarrow>
     r \<in> set df \<and> car_id r \<noteq> cid \<and> brand r = brand c \<and> body_type r = body_type c"
  by (auto simp: similar_def eq_cell_def split: option.splits)

lemma between_None: "between v None hi = False" "between v lo None = False"
  by (simp_all add: between_def ge_def le_def split: option.splits)

text \<open>
  Claim C5. For an id of the table, the page is rendered for the first row with that id,
  and no row of its similar cars has the reference id, is the reference row, or differs
  from the reference row in brand or body type.
\<close>

theorem similar_by_attributes_excludes:
  assumes "cid \<in> car_id ` set df"
  shows "\<exists>c sim pr. recommend df cid = Rendered c sim pr
           \<and> find (\<lambda>r. car_id r = cid) df = Some c
           \<and> (\<forall>r \<in> set sim. car_id r \<noteq> cid \<and> c \<noteq> r
                 \<and> brand r = brand c \<and> body_type r = body_type c)"
proof -
  from recommend_found [OF assms] obtain c where
    c: "find (\<lambda>r. car_id r = cid) df = Some c"
       "recommend df cid = Rendered c (similar df cid c) (price_range_cars df cid c)" by blast
  from c(1) have "car_id c = cid" by (auto simp: find_Some_iff)
  then have "\<forall>r \<in> set (similar df cid c). car_id r \<noteq> cid \<and> c \<noteq> r
                 \<and> brand r = brand c \<and> body_type r = body_type c"
    using similar_member by blast
  with c show ?thesis by blast
qed

theorem similar_by_attributes_excludes_witness:
  "1 \<in> car_id ` set ex_table
   \<and> (\<exists>c sim pr. recommend ex_table 1 = Rendered c sim pr
           \<and> find (\<lambda>r. car_id r = 1) ex_table = Some c
           \<and> (\<forall>r \<in> set sim. car_id r \<noteq> 1 \<and> c \<noteq> r
                 \<and> brand r = brand c \<and> body_type r = body_type c))"
proof -
  have h: "1 \<in> car_id ` set ex_table" by (simp add: ex_table_def ex_car_def)
  from similar_by_attributes_excludes [OF h] h show ?thesis by simp
qed

text \<open>
  Claim C6. For an id of the table whose reference row has no year or no horsepower, the
  list of similar cars is empty; when the reference row has no price, the list of cars in
  its price range is empty. The page is rendered in both cases: nothing is raised.
\<close>

theorem null_reference_fails_closed:
  assumes "cid \<in> car_id ` set df"
  shows "\<exists>c sim pr. recommend df cid = Rendered c sim pr
           \<and> find (\<lambda>r. car_id r = cid) df = Some c
           \<and> (year c = None \<or> horsepower c = None \<longrightarrow> sim = [])
           \<and> (price_usd c = None \<longrightarrow> pr = [])"
proof -
  from recommend_found [OF assms] obtain c where
    c: "find (\<lambda>r. car_id r = cid) df = Some c"
       "recommend df cid = Rendered c (similar df cid c) (price_range_cars df cid c)" by blast
  have "year c = None \<or> horsepower c = None \<longrightarrow> similar df cid c = []"
    by (auto simp: similar_def num_add_def num_mul_def between_None)
  moreover have "price_usd c = None \<longrightarrow> price_range_cars df cid c = []"
    by (auto simp: price_range_cars_def num_mul_def between_None)
  ultimately show ?thesis using c
    by (intro exI [of _ c] exI [of _ "similar df cid c"] exI [of _ "price_range_cars df cid c"])
       simp
qed

theorem null_reference_fails_closed_witness:
  "4 \<in> car_id ` set ex_table
   \<and> find (\<lambda>r. car_id r = 4) ex_table = Some (ex_car 4 ''Honda'' ''Accord'' None None None)
   \<and> recommend ex_table 4 = Rendered (ex_car 4 ''Honda'' ''Accord'' None None None) [] []"
proof -
  have h: "4 \<in> car_id ` set ex_table" by (simp add: ex_table_def ex_car_def)
  have f: "find (\<lambda>r. car_id r = 4) ex_table = Some (ex_car 4 ''Honda'' ''Accord'' None None None)"
    by (simp add: ex_table_def ex_car_def)
  from null_reference_fails_closed [OF h] f h show ?thesis
    by (auto simp: ex_car_def)
qed

section \<open>Favourites\<close>

text \<open>On a list without duplicates the update of the list is what a toggle of a set is.\<close>

lemma toggle_list_set:
  assumes "distinct favorites"
  shows "set (toggle_list favorites cid)
           = (if cid \<in> set favorites then set favorites - {cid} else insert cid (set favorites))"
    and "distinct (toggle_list favorites cid)"
  using assms by (auto simp: toggle_list_def)

lemma toggle_list_twice:
  "distinct favorites \<Longrightarrow> set (toggle_list (toggle_list favorites cid) cid) = set favorites"
  by (auto simp: toggle_list_def)

text \<open>
  Claim C7 on the application as it is configured: every toggle request, whatever the
  cookie stores and whatever the id, ends in the RuntimeError of the write to the session.
  No id is added and none is removed.
\<close>

theorem toggle_favorite_raises:
  "toggle_favorite stored cid = Inl RuntimeError"
  by (simp add: toggle_favorite_def session_set_def secret_key_def)

section \<open>Text search on terms without special characters\<close>

lemma startswith_iff: "startswith s t \<longleftrightarrow> (\<exists>r. s = t @ r)"
  by (induction s t rule: startswith.induct) auto

lemma contains_iff: "contains s t \<longleftrightarrow> (\<exists>ps ss. s = ps @ t @ ss)"
proof (induction s)
  case Nil
  then show ?case by auto
next
  case (Cons c cs)
  show ?case
  proof
    assume "contains (c # cs) t"
    then consider "startswith (c # cs) t" | "contains cs t" by auto
    then show "\<exists>ps ss. c # cs = ps @ t @ ss"
    proof cases
      case 1
      then obtain r where "c # cs = t @ r" by (auto simp: startswith_iff)
      then have "c # cs = [] @ t @ r" by simp
      then show ?thesis by blast
    next
      case 2
      with Cons.IH obtain ps ss where "cs = ps @ t @ ss" by blast
      then have "c # cs = (c # ps) @ t @ ss" by simp
      then show ?thesis by blast
    qed
  next
    assume "\<exists>ps ss. c # cs = ps @ t @ ss"
    then obtain ps ss where d: "c # cs = ps @ t @ ss" by blast
    show "contains (c # cs) t"
    proof (cases ps)
      case Nil
      with d have "startswith (c # cs) t" by (auto simp: startswith_iff)
      then show ?thesis by simp
    next
      case (Cons a ps')
      with d have "cs = ps' @ t @ ss" by simp
      with Cons.IH have "contains cs t" by blast
      then show ?thesis by simp
    qed
  qed
qed

lemma startswith_Nil: "startswith [] t = (t = [])"
  by (cases t) auto

lemma match_here_Lit: "match_here (map Lit t) s = startswith s t"
  by (induction s t rule: startswith.induct) auto

lemma re_search_Lit: "re_search (map Lit t) s = contains s t"
  by (induction s) (auto simp: match_here_Lit startswith_Nil)

lemma plain_to_atom: "plain t \<Longrightarrow> map to_atom t = map Lit t"
  by (auto simp: plain_def to_atom_def special_chars_def)

lemma re_compile_plain:
  assumes "plain t"
  shows "re_compile eng t = Inr (\<lambda>s. contains s t)"
proof -
  have "hd t \<notin> set repeat_chars" if "t \<noteq> []"
  proof -
    from that have "hd t \<in> set t" by simp
    with assms show ?thesis
      by (auto simp: plain_def special_chars_def repeat_chars_def)
  qed
  moreover from assms have "\<forall>c \<in> set t. c = CHR ''.'' \<or> c \<notin> set special_chars"
    by (simp add: plain_def)
  moreover have "re_search (map to_atom t) = (\<lambda>s. contains s t)"
    using assms by (auto simp: plain_to_atom re_search_Lit)
  ultimately show ?thesis by (auto simp: re_compile_def)
qed

lemma map2_keep: "length msk = length hs \<Longrightarrow> map2 (\<lambda>b h. b) msk hs = msk"
  by (induction msk hs rule: list_induct2) auto

lemma map2_and_step:
  "length msk = length hs \<Longrightarrow>
     map2 (\<lambda>b h. b \<and> P h) (map2 (\<and>) msk (map m hs)) hs
       = map2 (\<lambda>b h. b \<and> m h \<and> P h) msk hs"
  by (induction msk hs rule: list_induct2) auto

lemma mask_terms_plain:
  assumes "\<forall>t \<in> set ts. plain t" "length msk = length hs"
  shows "mask_terms eng ts hs msk
           = Inr (map2 (\<lambda>b h. b \<and> (\<forall>t \<in> set ts. contains h t)) msk hs)"
  using assms
proof (induction ts arbitrary: msk)
  case Nil
  then show ?case by (simp add: map2_keep)
next
  case (Cons t ts)
  from Cons.prems have t: "re_compile eng t = Inr (\<lambda>s. contains s t)"
    by (simp add: re_compile_plain)
  from Cons.prems have len: "length (map2 (\<and>) msk (map (\<lambda>s. contains s t) hs)) = length hs"
    by simp
  from Cons.prems have "\<forall>t \<in> set ts. plain t" by simp
  from Cons.IH [OF this len] t Cons.prems(2) show ?case
    by (simp add: map2_and_step)
qed

lemma select_replicate:
  "select xs (map2 (\<lambda>b h. b \<and> P h) (replicate (length xs) True) (map hay xs))
     = filter (\<lambda>r. P (hay r)) xs"
  by (induction xs) (auto simp: select_def)

lemma is_space_not_upper: "is_space c \<Longrightarrow> \<not> is_upper c"
  by (auto simp: is_space_def is_upper_def)

lemma upper_lower_not_space: "is_upper c \<Longrightarrow> \<not> is_space (lower_char c)"
  by (cases c) (auto simp: is_space_def is_upper_def lower_char_def Let_def of_bool_def split: if_splits)

lemma is_space_lower_char: "is_space (lower_char c) = is_space c"
proof (cases "is_upper c")
  case True
  then show ?thesis using upper_lower_not_space is_space_not_upper by blast
next
  case False
  then show ?thesis by (simp add: lower_char_def)
qed

lemma dropWhile_lower: "dropWhile is_space (lower s) = lower (dropWhile is_space s)"
  by (induction s) (auto simp: lower_def is_space_lower_char)

lemma strip_lower: "strip (lower s) = lower (strip s)"
proof -
  have "rev (lower s) = lower (rev s)" for s by (simp add: lower_def rev_map)
  then show ?thesis by (simp add: strip_def dropWhile_lower)
qed

lemma split_from_dropWhile: "split_from [] (dropWhile is_space s) = split_from [] s"
  by (induction s) auto

lemma split_from_trailing:
  "\<forall>c \<in> set ws. is_space c \<Longrightarrow> split_from w (s @ ws) = split_from w s"
proof (induction s arbitrary: w)
  case Nil
  then show ?case by (induction ws arbitrary: w) auto
next
  case (Cons c cs)
  then show ?case by simp
qed

lemma split_strip: "split (strip s) = split s"
proof -
  let ?t = "dropWhile is_space s"
  have "rev ?t = takeWhile is_space (rev ?t) @ dropWhile is_space (rev ?t)" by simp
  then have "?t = rev (dropWhile is_space (rev ?t)) @ rev (takeWhile is_space (rev ?t))"
    by (metis rev_append rev_rev_ident)
  moreover have "\<forall>c \<in> set (rev (takeWhile is_space (rev ?t))). is_space c"
    by (auto dest: set_takeWhileD)
  ultimately have "split_from [] ?t = split_from [] (rev (dropWhile is_space (rev ?t)))"
    using split_from_trailing by metis
  then show ?thesis by (simp add: split_def strip_def split_from_dropWhile)
qed

lemma terms_code: "split (lower (strip s)) = terms (Some s)"
  by (metis strip_lower split_strip terms_def option.simps(5))

lemma strip_empty_terms: "strip s = [] \<Longrightarrow> terms (Some s) = []"
  using terms_code [of s] by (simp add: lower_def split_def)

lemma text_search_plain:
  assumes "\<forall>t \<in> set (terms q). plain t"
  shows "text_search eng q xs = Inr (filter (text_ok haystack q) xs)"
proof (cases q)
  case None
  then show ?thesis by (simp add: text_search_def text_ok_def terms_def)
next
  case (Some s)
  show ?thesis
  proof (cases "strip s = []")
    case True
    then show ?thesis using Some
      by (simp add: text_search_def text_ok_def strip_empty_terms)
  next
    case False
    then have "s \<noteq> []" by (auto simp: strip_def)
    moreover from assms Some have "\<forall>t \<in> set (split (lower (strip s))). plain t"
      by (simp add: terms_code)
    ultimately show ?thesis using False Some
      by (simp add: text_search_def mask_terms_plain select_replicate terms_code
          text_ok_def [abs_def])
  qed
qed

lemma to_int_bound: "to_int x = Inr (bound x)"
  by (simp add: bound_def to_int_def split: sum.splits)

lemma eq_filter_cat: "eq_filter col v xs = filter (\<lambda>r. cat_ok v (col r)) xs"
  by (auto simp: eq_filter_def cat_ok_def split: option.splits)

lemma ge_filter_min: "ge_filter col b xs = filter (\<lambda>r. min_ok b (col r)) xs"
  by (auto simp: ge_filter_def min_ok_def ge_def split: option.splits intro!: filter_cong)

lemma le_filter_max: "le_filter col b xs = filter (\<lambda>r. max_ok b (col r)) xs"
  by (auto simp: le_filter_def max_ok_def le_def split: option.splits intro!: filter_cong)

lemma apply_filters_fields:
  "apply_filters eng data p
     = and_then (text_search eng (arg_q p) data) (\<lambda>f0. Inr (filter (fields_ok p) f0))"
proof -
  have "and_then (to_int x) f = f (bound x)" for x and f :: "int option \<Rightarrow> error + car list"
    by (simp add: and_then_def to_int_bound)
  then show ?thesis
    by (simp add: apply_filters_def Let_def eq_filter_cat ge_filter_min le_filter_max
        fields_ok_def conj_commute conj_left_commute cong: filter_cong)
qed

section \<open>The filters\<close>

lemma kept_fields:
  "r \<in> kept (apply_filters eng data p) \<Longrightarrow> fields_ok p r"
  by (auto simp: apply_filters_fields and_then_def kept_def split: sum.splits)

text \<open>
  Claim C3. A record without a year is in no result of \<open>apply_filters\<close> whose criteria
  set a lower or an upper bound on the year, that is, whose \<open>year_min\<close> or \<open>year_max\<close>
  parses to an integer; the same for horsepower and for the price.
\<close>

theorem null_excluded_by_bound:
  "(year r = None \<and> (bound (arg_year_min p) \<noteq> None \<or> bound (arg_year_max p) \<noteq> None)
      \<longrightarrow> r \<notin> kept (apply_filters eng data p))
   \<and> (horsepower r = None \<and> (bound (arg_hp_min p) \<noteq> None \<or> bound (arg_hp_max p) \<noteq> None)
      \<longrightarrow> r \<notin> kept (apply_filters eng data p))
   \<and> (price_usd r = None
        \<and> (bound (arg_price_min p) \<noteq> None \<or> bound (arg_price_max p) \<noteq> None)
      \<longrightarrow> r \<notin> kept (apply_filters eng data p))"
proof -
  have "\<not> min_ok b None" "\<not> max_ok b None" if "b \<noteq> None" for b
    using that by (auto simp: min_ok_def max_ok_def)
  then show ?thesis
    using kept_fields [of r eng data p] by (auto simp: fields_ok_def)
qed

lemmas ev_text = strip_def is_space_def lower_def lower_char_def is_upper_def split_def
  terms_def plain_def special_chars_def
lemmas ev_int = to_int_def to_int_try_def py_int_def int_space_def is_digit_def digit_val_def
  int_max_str_digits_def Let_def bound_def
lemmas ev_hay = haystack_def search_cols_def astype_str_def ex_car_def ex_table_def
  claimed_haystack_def
lemmas ev_ok = satisfies_def claimed_satisfies_def satisfies_with_def text_ok_def fields_ok_def
  cat_ok_def min_ok_def max_ok_def no_params_def

lemma bound_examples: "bound (Some ''2000'') = Some 2000" "bound (Some '' 500'') = Some 500"
  "bound (Some ''1_000'') = Some 1000" "bound None = None"
  "bound (Some ''2021'') = Some 2021"
  by (simp_all add: ev_text ev_int)

theorem null_excluded_by_bound_witness:
  "year (ex_car 4 ''Honda'' ''Accord'' None None None) = None
   \<and> bound (arg_year_min ex_bounds) \<noteq> None
   \<and> horsepower (ex_car 4 ''Honda'' ''Accord'' None None None) = None
   \<and> bound (arg_hp_max ex_bounds) \<noteq> None
   \<and> price_usd (ex_car 4 ''Honda'' ''Accord'' None None None) = None
   \<and> bound (arg_price_min ex_bounds) \<noteq> None
   \<and> ex_car 4 ''Honda'' ''Accord'' None None None \<in> set ex_table
   \<and> ex_car 4 ''Honda'' ''Accord'' None None None
        \<notin> kept (apply_filters ex_engine ex_table ex_bounds)"
  using null_excluded_by_bound [of "ex_car 4 ''Honda'' ''Accord'' None None None" ex_bounds
      ex_engine ex_table]
  by (simp add: ex_bounds_def no_params_def bound_examples ex_car_def ex_table_def)

text \<open>
  Claim C1, amended. When no term of the query holds a character that is special in a
  regular expression, \<open>apply_filters\<close> returns, in table order, exactly the records that
  satisfy every constraint, the text constraint being read on the cells joined by single
  spaces: every record of the result satisfies the criteria, and every record of the table
  that is not in the result violates one of them.
\<close>

theorem apply_filters_sound_complete:
  assumes "\<forall>t \<in> set (terms (arg_q p)). plain t"
  shows "\<exists>res. apply_filters eng data p = Inr res
           \<and> res = filter (satisfies p) data
           \<and> (\<forall>r \<in> set res. satisfies p r)
           \<and> (\<forall>r \<in> set data. r \<notin> set res \<longrightarrow> \<not> satisfies p r)"
proof -
  have "filter (fields_ok p) (filter (text_ok haystack (arg_q p)) data)
          = filter (satisfies p) data"
    by (auto simp: satisfies_def satisfies_with_def intro!: filter_cong)
  with assms have "apply_filters eng data p = Inr (filter (satisfies p) data)"
    by (simp add: apply_filters_fields text_search_plain and_then_def)
  then show ?thesis by simp
qed

lemma ex_query_terms: "terms (Some '' TOY  sedan'') = [''toy'', ''sedan'']"
  by (simp add: ev_text)


lemma ex_sel: "brand (ex_car i b m y h p) = Some b" "model (ex_car i b m y h p) = Some m"
  "body_type (ex_car i b m y h p) = Some ''Sedan''" "fuel_type (ex_car i b m y h p) = None"
  "drive_type (ex_car i b m y h p) = None" "transmission (ex_car i b m y h p) = None"
  "year (ex_car i b m y h p) = y" "horsepower (ex_car i b m y h p) = h"
  "price_usd (ex_car i b m y h p) = p" "car_id (ex_car i b m y h p) = i"
  by (simp_all add: ex_car_def)

lemma ex_haystacks: "haystack (ex_car 1 ''Toyota'' ''Camry'' y h p) = ''toyota camry sedan nan nan nan''"
  "haystack (ex_car 2 ''Toyota'' ''Corolla'' y h p) = ''toyota corolla sedan nan nan nan''"
  "haystack (ex_car 3 ''Honda'' ''Civic'' y h p) = ''honda civic sedan nan nan nan''"
  "haystack (ex_car 4 ''Honda'' ''Accord'' y h p) = ''honda accord sedan nan nan nan''"
  by (simp_all add: ev_hay ev_text)

lemma ex_claimed_haystack: "claimed_haystack (ex_car 1 ''Toyota'' ''Camry'' y h p) = ''toyotacamrysedannannannan''"
  by (simp_all add: ev_hay ev_text)

theorem apply_filters_sound_complete_witness:
  "apply_filters ex_engine ex_table ex_query
     = Inr [ex_car 2 ''Toyota'' ''Corolla'' (Some 2021) (Some 160) (Some 21000)]"
proof -
  have h: "\<forall>t \<in> set (terms (arg_q ex_query)). plain t"
    by (simp add: ex_query_def no_params_def ex_query_terms plain_def special_chars_def)
  have f: "filter (satisfies ex_query) ex_table
             = [ex_car 2 ''Toyota'' ''Corolla'' (Some 2021) (Some 160) (Some 21000)]"
    by (simp add: ex_table_def satisfies_def satisfies_with_def text_ok_def fields_ok_def
        ex_query_def no_params_def ex_query_terms ex_haystacks bound_examples cat_ok_def min_ok_def max_ok_def ex_sel)
  from apply_filters_sound_complete [OF h, of ex_engine ex_table] f h show ?thesis by simp
qed

lemma dot_tac_terms: "terms (Some ''.'') = [''.'']" "terms (Some ''tac'') = [''tac'']"
  "split (lower (strip ''.'')) = [''.'']" "split (lower (strip ''tac'')) = [''tac'']"
  "strip ''.'' = ''.''" "strip ''tac'' = ''tac''"
  "split (lower ''.'') = [''.'']" "split (lower ''tac'') = [''tac'']"
  by (simp_all add: ev_text)

lemma re_compile_dot: "re_compile eng ''.'' = Inr (re_search [AnyChar])"
  by (simp add: re_compile_def repeat_chars_def special_chars_def to_atom_def)

text \<open>
  The claim as stated fails in both directions. The query \<open>.\<close> keeps a record in which
  no cell holds a dot, and the query \<open>tac\<close> drops a record although \<open>tac\<close> occurs in the
  concatenation of its cells (\<open>toyota\<close> followed by \<open>camry\<close>).
\<close>

theorem apply_filters_counterexample:
  "apply_filters ex_engine ex_table (no_params\<lparr>arg_q := Some ''.''\<rparr>) = Inr ex_table
   \<and> \<not> claimed_satisfies (no_params\<lparr>arg_q := Some ''.''\<rparr>)
         (ex_car 1 ''Toyota'' ''Camry'' (Some 2020) (Some 150) (Some 20000))
   \<and> \<not> satisfies (no_params\<lparr>arg_q := Some ''.''\<rparr>)
         (ex_car 1 ''Toyota'' ''Camry'' (Some 2020) (Some 150) (Some 20000))
   \<and> apply_filters ex_engine ex_table (no_params\<lparr>arg_q := Some ''tac''\<rparr>) = Inr []
   \<and> claimed_satisfies (no_params\<lparr>arg_q := Some ''tac''\<rparr>)
         (ex_car 1 ''Toyota'' ''Camry'' (Some 2020) (Some 150) (Some 20000))"
proof -
  have a: "text_search ex_engine (Some ''.'') ex_table = Inr ex_table"
    by (simp add: text_search_def dot_tac_terms re_compile_dot ex_table_def ex_haystacks select_def)
  have b: "text_search ex_engine (Some ''tac'') ex_table = Inr []"
    by (simp add: text_search_def dot_tac_terms re_compile_plain plain_def special_chars_def
        ex_table_def ex_haystacks select_def)
  have f: "fields_ok (no_params\<lparr>arg_q := q\<rparr>) r" for q r
    by (simp add: fields_ok_def no_params_def cat_ok_def min_ok_def max_ok_def bound_examples)
  have "apply_filters ex_engine ex_table (no_params\<lparr>arg_q := Some ''.''\<rparr>) = Inr ex_table"
    by (simp add: apply_filters_fields and_then_def f a)
  moreover have "apply_filters ex_engine ex_table (no_params\<lparr>arg_q := Some ''tac''\<rparr>) = Inr []"
    by (simp add: apply_filters_fields and_then_def f b)
  moreover have "\<not> claimed_satisfies (no_params\<lparr>arg_q := Some ''.''\<rparr>)
         (ex_car 1 ''Toyota'' ''Camry'' (Some 2020) (Some 150) (Some 20000))"
    by (simp add: claimed_satisfies_def satisfies_with_def text_ok_def dot_tac_terms ex_claimed_haystack)
  moreover have "\<not> satisfies (no_params\<lparr>arg_q := Some ''.''\<rparr>)
         (ex_car 1 ''Toyota'' ''Camry'' (Some 2020) (Some 150) (Some 20000))"
    by (simp add: satisfies_def satisfies_with_def text_ok_def dot_tac_terms ex_haystacks)
  moreover have "claimed_satisfies (no_params\<lparr>arg_q := Some ''tac''\<rparr>)
         (ex_car 1 ''Toyota'' ''Camry'' (Some 2020) (Some 150) (Some 20000))"
    by (simp add: claimed_satisfies_def satisfies_with_def text_ok_def dot_tac_terms ex_claimed_haystack f)
  ultimately show ?thesis by blast
qed

section \<open>The text search alone\<close>

lemma haystack_unfold:
  "haystack r = lower (astype_str (brand r) @ '' '' @ astype_str (model r) @ '' ''
       @ astype_str (body_type r) @ '' '' @ astype_str (fuel_type r) @ '' ''
       @ astype_str (drive_type r) @ '' '' @ astype_str (transmission r))"
  by (simp add: haystack_def search_cols_def)

text \<open>
  Claim C2, amended. When no term of the query holds a character that is special in a
  regular expression, a record is kept by the text search if and only if every
  lower-cased term of the query occurs in the lower-cased text of its brand, model, body
  type, fuel type, drive type and transmission joined by single spaces, a missing cell
  counting as the text \<open>nan\<close>.
\<close>

theorem text_search_iff:
  assumes "\<forall>t \<in> set (split (lower q)). plain t"
  shows "\<exists>res. text_search eng (Some q) data = Inr res
     \<and> (\<forall>r \<in> set data. r \<in> set res \<longleftrightarrow>
          (\<forall>t \<in> set (split (lower q)).
             contains (lower (astype_str (brand r) @ '' '' @ astype_str (model r) @ '' ''
               @ astype_str (body_type r) @ '' '' @ astype_str (fuel_type r) @ '' ''
               @ astype_str (drive_type r) @ '' '' @ astype_str (transmission r))) t))
     \<and> astype_str None = ''nan''"
proof -
  from assms have "\<forall>t \<in> set (terms (Some q)). plain t" by (simp add: terms_def)
  then have "text_search eng (Some q) data = Inr (filter (text_ok haystack (Some q)) data)"
    by (rule text_search_plain)
  then show ?thesis
    by (simp add: text_ok_def terms_def haystack_unfold astype_str_def)
qed

lemma toy_cam_terms: "split (lower ''Toy CAM'') = [''toy'', ''cam'']"
  by (simp add: ev_text)

theorem text_search_iff_witness:
  "ex_car 1 ''Toyota'' ''Camry'' (Some 2020) (Some 150) (Some 20000)
        \<in> kept (text_search ex_engine (Some ''Toy CAM'') ex_table)
   \<and> ex_car 2 ''Toyota'' ''Corolla'' (Some 2021) (Some 160) (Some 21000)
        \<notin> kept (text_search ex_engine (Some ''Toy CAM'') ex_table)"
proof -
  have h: "\<forall>t \<in> set (split (lower ''Toy CAM'')). plain t"
    by (simp add: toy_cam_terms plain_def special_chars_def)
  have m: "ex_car 1 ''Toyota'' ''Camry'' (Some 2020) (Some 150) (Some 20000) \<in> set ex_table"
    "ex_car 2 ''Toyota'' ''Corolla'' (Some 2021) (Some 160) (Some 21000) \<in> set ex_table"
    by (simp_all add: ex_table_def)
  from text_search_iff [OF h, of ex_engine ex_table] obtain res where
    r: "text_search ex_engine (Some ''Toy CAM'') ex_table = Inr res"
       "\<forall>r \<in> set ex_table. r \<in> set res \<longleftrightarrow>
          (\<forall>t \<in> set (split (lower ''Toy CAM'')). contains (haystack r) t)"
    unfolding haystack_unfold by blast
  from r(2) m have "ex_car 1 ''Toyota'' ''Camry'' (Some 2020) (Some 150) (Some 20000) \<in> set res"
    "ex_car 2 ''Toyota'' ''Corolla'' (Some 2021) (Some 160) (Some 21000) \<notin> set res"
    by (simp_all add: toy_cam_terms ex_haystacks)
  with r(1) h show ?thesis by (simp add: kept_def)
qed

text \<open>
  The claim as stated fails in both directions, on a table of one record: the query
  \<open>.\<close> keeps it although no cell holds a dot, and the query \<open>tac\<close> drops it although
  \<open>tac\<close> occurs in the concatenation of its cells.
\<close>

theorem text_search_counterexample:
  "split (lower ''.'') = [''.'']
   \<and> text_search ex_engine (Some ''.'')
        [ex_car 1 ''Toyota'' ''Camry'' (Some 2020) (Some 150) (Some 20000)]
       = Inr [ex_car 1 ''Toyota'' ''Camry'' (Some 2020) (Some 150) (Some 20000)]
   \<and> \<not> contains (claimed_haystack
           (ex_car 1 ''Toyota'' ''Camry'' (Some 2020) (Some 150) (Some 20000))) ''.''
   \<and> \<not> contains (haystack
           (ex_car 1 ''Toyota'' ''Camry'' (Some 2020) (Some 150) (Some 20000))) ''.''
   \<and> split (lower ''tac'') = [''tac'']
   \<and> text_search ex_engine (Some ''tac'')
        [ex_car 1 ''Toyota'' ''Camry'' (Some 2020) (Some 150) (Some 20000)] = Inr []
   \<and> contains (claimed_haystack
         (ex_car 1 ''Toyota'' ''Camry'' (Some 2020) (Some 150) (Some 20000))) ''tac''"
  by (simp add: text_search_def dot_tac_terms re_compile_dot ex_haystacks ex_claimed_haystack select_def re_compile_plain plain_def
      special_chars_def)


section \<open>Ids after load\<close>

lemma astype_int_of_nat: "to_id (Some (of_nat i)) = int i"
  by (simp add: to_id_def astype_int_def)

lemma car_id_mk_car: "car_id (mk_car i l) = i"
  by (simp add: mk_car_def)

lemma enumerate_ids:
  "map (\<lambda>(i, r). car_id (mk_car (to_id (Some (of_nat i))) (cells r))) (enumerate n xs)
     = map int [n..<n + length xs]"
proof (induction xs arbitrary: n)
  case Nil
  then show ?case by simp
next
  case (Cons x xs)
  have "[n..<n + length (x # xs)] = n # [Suc n..<Suc n + length xs]"
    by (simp add: upt_rec)
  with Cons.IH [of "Suc n"] show ?case by (simp add: astype_int_of_nat car_id_mk_car)
qed

lemma text_search_subset: "text_search eng q xs = Inr ys \<Longrightarrow> set ys \<subseteq> set xs"
  by (auto simp: text_search_def select_def split: option.splits if_splits sum.splits
      dest!: set_zip_leftD)

lemma kept_subset: "kept (apply_filters eng data p) \<subseteq> set data"
  using text_search_subset
  by (fastforce simp: apply_filters_fields and_then_def kept_def split: sum.splits)

text \<open>
  Claim C8, amended. When the file has neither an \<open>id\<close> nor an \<open>index\<close> column, the
  ids are the row numbers from 0 and no two records share one. When the file has an \<open>id\<close>
  column, the ids are its cells turned into integers, a cell that is not a number giving
  0. The records that \<open>apply_filters\<close> returns are records of the loaded table, with the
  ids they got at load.
\<close>

theorem ids_after_load:
  "(\<not> has_id src \<and> \<not> has_index src \<longrightarrow>
      (\<exists>df. load src = Inr df \<and> map car_id df = map int [0..<length (rows src)]
            \<and> distinct (map car_id df)))
   \<and> (has_id src \<longrightarrow>
      (\<exists>df. load src = Inr df \<and> map car_id df = map (\<lambda>r. to_id (id_cell r)) (rows src)))
   \<and> (load src = Inr df \<longrightarrow> kept (apply_filters eng df p) \<subseteq> set df)"
proof -
  have "distinct (map int [0..<n])" for n
    by (simp add: distinct_map inj_on_def)
  then have a: "\<not> has_id src \<and> \<not> has_index src \<longrightarrow>
      (\<exists>df. load src = Inr df \<and> map car_id df = map int [0..<length (rows src)]
            \<and> distinct (map car_id df))"
    using enumerate_ids [of 0 "rows src"]
    by (simp add: load_def comp_def case_prod_unfold)
  have b: "has_id src \<longrightarrow>
      (\<exists>df. load src = Inr df \<and> map car_id df = map (\<lambda>r. to_id (id_cell r)) (rows src))"
    by (simp add: load_def comp_def car_id_mk_car)
  from a b kept_subset show ?thesis by blast
qed

text \<open>
  The claim as stated fails: two rows whose \<open>id\<close> cell is not a number both get the id
  0, and without an \<open>id\<close> column two rows with the same cell in a column \<open>index\<close> share
  that id.
\<close>

theorem ids_not_unique:
  "load \<lparr>has_id = True, has_index = False, has_level_0 = False, rows = ex_rows None None\<rparr>
     = Inr [mk_car 0 (ex_listing ''Rio''), mk_car 0 (ex_listing ''Ceed'')]
   \<and> load \<lparr>has_id = False, has_index = True, has_level_0 = False,
        rows = ex_rows None (Some 7)\<rparr>
     = Inr [mk_car 7 (ex_listing ''Rio''), mk_car 7 (ex_listing ''Ceed'')]
   \<and> mk_car 0 (ex_listing ''Rio'') \<noteq> mk_car 0 (ex_listing ''Ceed'')
   \<and> car_id (mk_car 0 (ex_listing ''Rio'')) = car_id (mk_car 0 (ex_listing ''Ceed''))
   \<and> mk_car 7 (ex_listing ''Rio'') \<noteq> mk_car 7 (ex_listing ''Ceed'')
   \<and> car_id (mk_car 7 (ex_listing ''Rio'')) = car_id (mk_car 7 (ex_listing ''Ceed''))"
  by (simp add: load_def ex_rows_def to_id_def astype_int_def mk_car_def ex_listing_def)

theorem ids_after_load_witness:
  "load \<lparr>has_id = False, has_index = False, has_level_0 = False, rows = ex_rows None None\<rparr>
     = Inr [mk_car 0 (ex_listing ''Rio''), mk_car 1 (ex_listing ''Ceed'')]
   \<and> (\<exists>df. load \<lparr>has_id = True, has_index = False, has_level_0 = False,
          rows = ex_rows (Some (5 / 2)) None\<rparr> = Inr df \<and> map car_id df = [2, 2])
   \<and> kept (apply_filters ex_engine
        [mk_car 0 (ex_listing ''Rio''), mk_car 1 (ex_listing ''Ceed'')] no_params)
      \<subseteq> {mk_car 0 (ex_listing ''Rio''), mk_car 1 (ex_listing ''Ceed'')}"
proof -
  let ?s = "\<lparr>has_id = False, has_index = False, has_level_0 = False, rows = ex_rows None None\<rparr>"
  let ?t = "\<lparr>has_id = True, has_index = False, has_level_0 = False,
          rows = ex_rows (Some (5 / 2)) None\<rparr>"
  have l: "load ?s = Inr [mk_car 0 (ex_listing ''Rio''), mk_car 1 (ex_listing ''Ceed'')]"
    by (simp add: load_def ex_rows_def to_id_def astype_int_def enumerate_eq_zip upt_rec)
  have f: "\<lfloor>5 / 2 :: rat\<rfloor> = 2" by (simp add: floor_unique)
  from ids_after_load [of ?s "[mk_car 0 (ex_listing ''Rio''), mk_car 1 (ex_listing ''Ceed'')]"
      ex_engine no_params]
    ids_after_load [of ?t] l f
  show ?thesis
    by (simp add: ex_rows_def to_id_def astype_int_def)
qed


section \<open>Search suggestions\<close>

lemma plus_plus_terms: "strip ''++'' = ''++''" "split (lower ''++'') = [''++'']"
  by (simp_all add: ev_text)

text \<open>
  Claim C9 at the request \<open>q=++\<close>, without brand and limit: the term is compiled as a
  regular expression, the compiler raises, and the request has no list as its response,
  whatever the table holds.
\<close>

theorem api_search_raises:
  "api_search eng argsort df \<lparr>req_q = Some ''++'', req_brand = None, req_limit = None\<rparr>
     = Inl ReError"
  by (simp add: api_search_def or_empty_def plus_plus_terms apply_filters_def text_search_def
      re_compile_def repeat_chars_def and_then_def)

lemma parse_limit_range: "1 \<le> parse_limit l \<and> parse_limit l \<le> 20"
  by (simp add: parse_limit_def split: option.splits sum.splits)

lemma parse_limit_default: "parse_limit None = 8" "py_int s = Inl e \<Longrightarrow> parse_limit (Some s) = 8"
  by (simp_all add: parse_limit_def)

lemma api_search_empty:
  "length (strip (or_empty (req_q req))) < 2 \<Longrightarrow> strip (or_empty (req_brand req)) = [] \<Longrightarrow>
     api_search eng argsort df req = Inr []"
  by (simp add: api_search_def)


lemma le_price_key:
  "price_usd a \<noteq> None \<Longrightarrow> price_usd b \<noteq> None \<Longrightarrow>
     le (price_usd a) (price_usd b) = (price_key a \<le> price_key b)"
  by (auto simp: le_def price_key_def)

lemma insertion_argsort_sorts: "sorts_by_price insertion_argsort"
  unfolding sorts_by_price_def
proof (intro allI impI conjI)
  fix xs :: "car list"
  assume p: "\<forall>r \<in> set xs. price_usd r \<noteq> None"
  show "mset (insertion_argsort xs) = mset xs"
    by (simp add: insertion_argsort_def)
  have "sorted (map price_key (sort_key price_key xs))" by (rule sorted_sort_key)
  then have "sorted_wrt (\<lambda>a b. price_key a \<le> price_key b) (sort_key price_key xs)"
    by (simp add: sorted_wrt_map)
  then have "sorted_wrt (\<lambda>a b. le (price_usd a) (price_usd b)) (sort_key price_key xs)"
  proof (rule sorted_wrt_mono_rel [rotated])
    fix a b
    assume "a \<in> set (sort_key price_key xs)" "b \<in> set (sort_key price_key xs)"
      and "price_key a \<le> price_key b"
    with p show "le (price_usd a) (price_usd b)" by (simp add: le_price_key)
  qed
  then show "sorted_wrt (\<lambda>a b. le (price_usd a) (price_usd b)) (insertion_argsort xs)"
    by (simp add: insertion_argsort_def)
qed

lemma sort_values_mset:
  assumes "sorts_by_price argsort"
  shows "mset (sort_values argsort xs) = mset xs"
proof -
  have "\<forall>r \<in> set (filter (\<lambda>r. price_usd r \<noteq> None) xs). price_usd r \<noteq> None" by simp
  with assms have "mset (argsort (filter (\<lambda>r. price_usd r \<noteq> None) xs))
      = mset (filter (\<lambda>r. price_usd r \<noteq> None) xs)"
    unfolding sorts_by_price_def by blast
  then show ?thesis by (simp add: sort_values_def)
qed

lemma nulls_last_nth:
  assumes "\<forall>r \<in> set ps. price_usd r \<noteq> None" "\<forall>r \<in> set ns. price_usd r = None"
    and "i < j" "j < length (ps @ ns)" "price_usd ((ps @ ns) ! i) = None"
  shows "price_usd ((ps @ ns) ! j) = None"
proof -
  have "\<not> i < length ps"
  proof
    assume a: "i < length ps"
    then have "ps ! i \<in> set ps" by simp
    with assms(1) have "price_usd (ps ! i) \<noteq> None" by blast
    with assms(5) a show False by (simp add: nth_append)
  qed
  with assms(3) have n: "\<not> j < length ps" by simp
  with assms(4) have "j - length ps < length ns" by simp
  then have "ns ! (j - length ps) \<in> set ns" by simp
  with assms(2) have "price_usd (ns ! (j - length ps)) = None" by blast
  with n show ?thesis by (simp add: nth_append)
qed

lemma api_search_cases:
  assumes "api_search eng argsort df req = Inr hits"
  shows "(length (strip (or_empty (req_q req))) < 2 \<and> strip (or_empty (req_brand req)) = []
            \<and> hits = [])
     \<or> (\<exists>res. apply_filters eng df
                 (no_params\<lparr>arg_q := Some (strip (or_empty (req_q req))),
                    arg_brand := Some (strip (or_empty (req_brand req)))\<rparr>) = Inr res
              \<and> hits = map to_hit
                   (take (nat (parse_limit (req_limit req))) (sort_values argsort res)))"
proof (cases "length (strip (or_empty (req_q req))) < 2 \<and> strip (or_empty (req_brand req)) = []")
  case True
  with assms show ?thesis by (simp add: api_search_def)
next
  case False
  let ?p = "no_params\<lparr>arg_q := Some (strip (or_empty (req_q req))),
     arg_brand := Some (strip (or_empty (req_brand req)))\<rparr>"
  from False assms have
    e: "and_then (apply_filters eng df ?p)
          (\<lambda>result. Inr (map to_hit (take (nat (parse_limit (req_limit req)))
             (sort_values argsort result)))) = Inr hits"
    by (auto simp: api_search_def Let_def split: if_splits)
  show ?thesis
  proof (cases "apply_filters eng df ?p")
    case (Inl e')
    with e show ?thesis by (simp add: and_then_def)
  next
    case (Inr res)
    with e have "hits = map to_hit (take (nat (parse_limit (req_limit req)))
        (sort_values argsort res))"
      by (simp add: and_then_def)
    with Inr show ?thesis by blast
  qed
qed

lemma api_search_length:
  assumes "api_search eng argsort df req = Inr hits"
  shows "int (length hits) \<le> parse_limit (req_limit req)"
proof -
  from api_search_cases [OF assms] parse_limit_range [of "req_limit req"]
  show ?thesis by auto
qed

lemma nulls_last_take:
  assumes "\<forall>r \<in> set ps. price_usd r \<noteq> None" "\<forall>r \<in> set ns. price_usd r = None"
    and "hits = map to_hit (take n (ps @ ns))"
    and "i < j" "j < length hits" "hit_price_usd (hits ! i) = None"
  shows "hit_price_usd (hits ! j) = None"
proof -
  define zs where "zs = ps @ ns"
  define ys where "ys = take n zs"
  from assms(3) have hy: "hits = map to_hit ys" by (simp add: ys_def zs_def)
  with assms(4,5) have l: "j < length ys" "i < length ys" by simp_all
  then have ln: "j < n" "i < n" "j < length zs" by (simp_all add: ys_def)
  then have nt: "ys ! i = zs ! i" "ys ! j = zs ! j" by (simp_all add: ys_def)
  from assms(6) hy l have "price_usd (ys ! i) = None" by (simp add: to_hit_def)
  with nt have "price_usd ((ps @ ns) ! i) = None" by (simp add: zs_def)
  moreover from ln have "j < length (ps @ ns)" by (simp add: zs_def)
  ultimately have "price_usd ((ps @ ns) ! j) = None"
    using nulls_last_nth [OF assms(1,2,4)] by blast
  with nt have "price_usd (ys ! j) = None" by (simp add: zs_def)
  with hy l show ?thesis by (simp add: to_hit_def)
qed

text \<open>
  Claim C10. Every list that \<open>api_search\<close> returns, whatever routine orders the rows with
  a price, is either the empty list of a query too short to search, or the first
  \<open>limit\<close> records (at least one) of this sequence: the records that \<open>apply_filters\<close>
  returns and that have a price, in ascending order of price, followed by all the records
  it returns that have no price, in table order. So a record without a price is neither
  dropped by the sort nor put first, and in the list no record with a price comes after
  one without.
\<close>

theorem null_prices_last:
  assumes "sorts_by_price argsort" and "api_search eng argsort df req = Inr hits"
  shows "(\<forall>i j. i < j \<and> j < length hits \<and> hit_price_usd (hits ! i) = None
            \<longrightarrow> hit_price_usd (hits ! j) = None)
     \<and> ((length (strip (or_empty (req_q req))) < 2 \<and> strip (or_empty (req_brand req)) = []
            \<and> hits = [])
        \<or> (\<exists>res ps. apply_filters eng df
                 (no_params\<lparr>arg_q := Some (strip (or_empty (req_q req))),
                    arg_brand := Some (strip (or_empty (req_brand req)))\<rparr>) = Inr res
              \<and> mset ps = mset (filter (\<lambda>r. price_usd r \<noteq> None) res)
              \<and> sorted_wrt (\<lambda>a b. le (price_usd a) (price_usd b)) ps
              \<and> hits = map to_hit (take (nat (parse_limit (req_limit req)))
                          (ps @ filter (\<lambda>r. price_usd r = None) res))
              \<and> 1 \<le> parse_limit (req_limit req)))"
proof (cases "hits = []")
  case True
  from api_search_cases [OF assms(2)] show ?thesis
  proof
    assume "length (strip (or_empty (req_q req))) < 2 \<and> strip (or_empty (req_brand req)) = []
            \<and> hits = []"
    then show ?thesis by simp
  next
    assume "\<exists>res. apply_filters eng df
                 (no_params\<lparr>arg_q := Some (strip (or_empty (req_q req))),
                    arg_brand := Some (strip (or_empty (req_brand req)))\<rparr>) = Inr res
              \<and> hits = map to_hit
                   (take (nat (parse_limit (req_limit req))) (sort_values argsort res))"
    then obtain res where
      r: "apply_filters eng df
                 (no_params\<lparr>arg_q := Some (strip (or_empty (req_q req))),
                    arg_brand := Some (strip (or_empty (req_brand req)))\<rparr>) = Inr res"
         "hits = map to_hit
                   (take (nat (parse_limit (req_limit req))) (sort_values argsort res))"
      by blast
    let ?ps = "argsort (filter (\<lambda>r. price_usd r \<noteq> None) res)"
    have pr: "\<forall>r \<in> set (filter (\<lambda>r. price_usd r \<noteq> None) res). price_usd r \<noteq> None" by simp
    with assms(1) have m: "mset ?ps = mset (filter (\<lambda>r. price_usd r \<noteq> None) res)"
      and so: "sorted_wrt (\<lambda>a b. le (price_usd a) (price_usd b)) ?ps"
      unfolding sorts_by_price_def by blast+
    from r(2) have h: "hits = map to_hit (take (nat (parse_limit (req_limit req)))
        (?ps @ filter (\<lambda>r. price_usd r = None) res))"
      by (simp only: sort_values_def)
    from parse_limit_range [of "req_limit req"] have "1 \<le> parse_limit (req_limit req)" by simp
    with r(1) m so h True show ?thesis by auto
  qed
next
  case False
  with api_search_cases [OF assms(2)] obtain res where
    r: "apply_filters eng df
                 (no_params\<lparr>arg_q := Some (strip (or_empty (req_q req))),
                    arg_brand := Some (strip (or_empty (req_brand req)))\<rparr>) = Inr res"
       "hits = map to_hit
                   (take (nat (parse_limit (req_limit req))) (sort_values argsort res))"
    by blast
  let ?ps = "argsort (filter (\<lambda>r. price_usd r \<noteq> None) res)"
  let ?ns = "filter (\<lambda>r. price_usd r = None) res"
  have pr: "\<forall>r \<in> set (filter (\<lambda>r. price_usd r \<noteq> None) res). price_usd r \<noteq> None" by simp
  with assms(1) have m: "mset ?ps = mset (filter (\<lambda>r. price_usd r \<noteq> None) res)"
    and so: "sorted_wrt (\<lambda>a b. le (price_usd a) (price_usd b)) ?ps"
    unfolding sorts_by_price_def by blast+
  from m have "set ?ps = set (filter (\<lambda>r. price_usd r \<noteq> None) res)" by (rule mset_eq_setD)
  then have a: "\<forall>r \<in> set ?ps. price_usd r \<noteq> None" by simp
  have b: "\<forall>r \<in> set ?ns. price_usd r = None" by simp
  from r(2) have h: "hits = map to_hit (take (nat (parse_limit (req_limit req))) (?ps @ ?ns))"
    by (simp only: sort_values_def)
  have ord: "\<forall>i j. i < j \<and> j < length hits \<and> hit_price_usd (hits ! i) = None
            \<longrightarrow> hit_price_usd (hits ! j) = None"
    using nulls_last_take [OF a b h] by blast
  from parse_limit_range [of "req_limit req"] have "1 \<le> parse_limit (req_limit req)" by simp
  with r(1) m so h have "\<exists>res ps. apply_filters eng df
                 (no_params\<lparr>arg_q := Some (strip (or_empty (req_q req))),
                    arg_brand := Some (strip (or_empty (req_brand req)))\<rparr>) = Inr res
              \<and> mset ps = mset (filter (\<lambda>r. price_usd r \<noteq> None) res)
              \<and> sorted_wrt (\<lambda>a b. le (price_usd a) (price_usd b)) ps
              \<and> hits = map to_hit (take (nat (parse_limit (req_limit req)))
                          (ps @ filter (\<lambda>r. price_usd r = None) res))
              \<and> 1 \<le> parse_limit (req_limit req)"
    by blast
  with ord show ?thesis by blast
qed

lemma ex_request_hits:
  "api_search ex_engine insertion_argsort ex_priced ex_request
     = Inr (map to_hit [ex_car 3 ''Honda'' ''Civic'' (Some 2020) (Some 140) (Some 19000),
         ex_car 1 ''Toyota'' ''Camry'' (Some 2020) (Some 150) (Some 20000),
         ex_car 4 ''Honda'' ''Accord'' None None None,
         ex_car 5 ''Honda'' ''Jazz'' (Some 2019) (Some 100) None])"
proof -
  have q: "strip (or_empty (req_q ex_request)) = ''sedan''"
    "strip (or_empty (req_brand ex_request)) = []"
    by (simp_all add: ex_request_def or_empty_def strip_def is_space_def)
  have l: "parse_limit (req_limit ex_request) = 8"
    by (simp add: ex_request_def parse_limit_def py_int_def int_space_def is_digit_def Let_def)
  have t: "terms (Some ''sedan'') = [''sedan'']" by (simp add: ev_text)
  have pl: "\<forall>t \<in> set (terms (Some ''sedan'')). plain t"
    by (simp add: t plain_def special_chars_def)
  have hs: "haystack (ex_car i b m y h p) = lower (b @ '' '' @ m @ '' sedan nan nan nan'')"
    for i b m y h p
    by (simp add: ev_hay lower_def lower_char_def is_upper_def)
  have f: "apply_filters ex_engine ex_priced
      (no_params\<lparr>arg_q := Some ''sedan'', arg_brand := Some []\<rparr>) = Inr ex_priced"
    by (simp add: apply_filters_fields text_search_plain pl and_then_def fields_ok_def
        cat_ok_def min_ok_def max_ok_def bound_examples no_params_def text_ok_def t ex_priced_def ex_haystacks hs
        lower_def lower_char_def is_upper_def)
  have s: "sort_values insertion_argsort ex_priced
      = [ex_car 3 ''Honda'' ''Civic'' (Some 2020) (Some 140) (Some 19000),
         ex_car 1 ''Toyota'' ''Camry'' (Some 2020) (Some 150) (Some 20000),
         ex_car 4 ''Honda'' ''Accord'' None None None,
         ex_car 5 ''Honda'' ''Jazz'' (Some 2019) (Some 100) None]"
    by (simp add: sort_values_def insertion_argsort_def ex_priced_def ex_sel price_key_def)
  show ?thesis
    by (simp add: api_search_def q l f s and_then_def)
qed

theorem null_prices_last_witness:
  "api_search ex_engine insertion_argsort ex_priced ex_request
     = Inr (map to_hit [ex_car 3 ''Honda'' ''Civic'' (Some 2020) (Some 140) (Some 19000),
         ex_car 1 ''Toyota'' ''Camry'' (Some 2020) (Some 150) (Some 20000),
         ex_car 4 ''Honda'' ''Accord'' None None None,
         ex_car 5 ''Honda'' ''Jazz'' (Some 2019) (Some 100) None])
   \<and> hit_price_usd (map to_hit [ex_car 3 ''Honda'' ''Civic'' (Some 2020) (Some 140) (Some 19000),
         ex_car 1 ''Toyota'' ''Camry'' (Some 2020) (Some 150) (Some 20000),
         ex_car 4 ''Honda'' ''Accord'' None None None,
         ex_car 5 ''Honda'' ''Jazz'' (Some 2019) (Some 100) None] ! 2) = None
   \<and> hit_price_usd (map to_hit [ex_car 3 ''Honda'' ''Civic'' (Some 2020) (Some 140) (Some 19000),
         ex_car 1 ''Toyota'' ''Camry'' (Some 2020) (Some 150) (Some 20000),
         ex_car 4 ''Honda'' ''Accord'' None None None,
         ex_car 5 ''Honda'' ''Jazz'' (Some 2019) (Some 100) None] ! 3) = None"
proof -
  let ?hits = "map to_hit [ex_car 3 ''Honda'' ''Civic'' (Some 2020) (Some 140) (Some 19000),
         ex_car 1 ''Toyota'' ''Camry'' (Some 2020) (Some 150) (Some 20000),
         ex_car 4 ''Honda'' ''Accord'' None None None,
         ex_car 5 ''Honda'' ''Jazz'' (Some 2019) (Some 100) None]"
  have a: "(2::nat) < 3 \<and> 3 < length ?hits" by simp
  have b: "hit_price_usd (?hits ! 2) = None" by (simp add: to_hit_def ex_sel)
  from null_prices_last [OF insertion_argsort_sorts ex_request_hits]
  have "\<forall>i j. i < j \<and> j < length ?hits \<and> hit_price_usd (?hits ! i) = None
            \<longrightarrow> hit_price_usd (?hits ! j) = None"
    by (rule conjunct1)
  with a b have "hit_price_usd (?hits ! 3) = None" by blast
  with b ex_request_hits show ?thesis by (intro conjI)
qed

end
